theory Spec2Isabelle
  imports Main "HOL-Library.Word" "HOL-Library.Sublist"
begin

unbundle bit_operations_syntax

section \<open>Data model\<close>

text \<open>
  Go's \<open>byte\<close> is an unsigned 8-bit integer, \<open>TAG_ID\<close> is \<open>int32\<close> and
  \<open>TAG_TYPE\<close> is \<open>uint32\<close>. A \<open>TAG_ID\<close> is kept as a 32-bit word and read with
  \<open>sint\<close> wherever the source orders two tags. A Go \<open>string\<close> is a sequence of
  bytes; it is kept as a HOL \<open>string\<close>, whose characters are bytes as well.
  Go's \<open>int\<close> is taken to be 64 bits wide, so that \<open>int(v)\<close> of a 32-bit value
  never overflows and is kept as a HOL \<open>int\<close>; every allocation is taken to succeed.
\<close>

type_synonym byte = "8 word"
type_synonym TAG_ID = "32 word"
type_synonym TAG_TYPE = "32 word"

abbreviation (input) HEADER_IMAGE :: TAG_ID where "HEADER_IMAGE \<equiv> 61"
abbreviation (input) HEADER_SIGNATURES :: TAG_ID where "HEADER_SIGNATURES \<equiv> 62"
abbreviation (input) HEADER_IMMUTABLE :: TAG_ID where "HEADER_IMMUTABLE \<equiv> 63"
abbreviation (input) HEADER_REGIONS :: TAG_ID where "HEADER_REGIONS \<equiv> 64"
abbreviation (input) RPMTAG_HEADERIMAGE :: TAG_ID where "RPMTAG_HEADERIMAGE \<equiv> HEADER_IMAGE"
abbreviation (input) RPMTAG_HEADERREGIONS :: TAG_ID where "RPMTAG_HEADERREGIONS \<equiv> HEADER_REGIONS"

abbreviation (input) RPMTAG_NAME :: TAG_ID where "RPMTAG_NAME \<equiv> 1000"
abbreviation (input) RPMTAG_VERSION :: TAG_ID where "RPMTAG_VERSION \<equiv> 1001"
abbreviation (input) RPMTAG_RELEASE :: TAG_ID where "RPMTAG_RELEASE \<equiv> 1002"
abbreviation (input) RPMTAG_EPOCH :: TAG_ID where "RPMTAG_EPOCH \<equiv> 1003"
abbreviation (input) RPMTAG_SIZE :: TAG_ID where "RPMTAG_SIZE \<equiv> 1009"
abbreviation (input) RPMTAG_VENDOR :: TAG_ID where "RPMTAG_VENDOR \<equiv> 1011"
abbreviation (input) RPMTAG_LICENSE :: TAG_ID where "RPMTAG_LICENSE \<equiv> 1014"
abbreviation (input) RPMTAG_ARCH :: TAG_ID where "RPMTAG_ARCH \<equiv> 1022"
abbreviation (input) RPMTAG_SOURCERPM :: TAG_ID where "RPMTAG_SOURCERPM \<equiv> 1044"

text \<open>Four of the other tags, for the examples: a string, a char array, a string array, a binary.\<close>

abbreviation (input) RPMTAG_SUMMARY :: TAG_ID where "RPMTAG_SUMMARY \<equiv> 1004"
abbreviation (input) RPMTAG_FILESTATES :: TAG_ID where "RPMTAG_FILESTATES \<equiv> 1029"
abbreviation (input) RPMTAG_DIRNAMES :: TAG_ID where "RPMTAG_DIRNAMES \<equiv> 1118"
abbreviation (input) RPMTAG_SOURCEPKGID :: TAG_ID where "RPMTAG_SOURCEPKGID \<equiv> 1146"

abbreviation (input) RPM_NULL_TYPE :: TAG_TYPE where "RPM_NULL_TYPE \<equiv> 0"
abbreviation (input) RPM_CHAR_TYPE :: TAG_TYPE where "RPM_CHAR_TYPE \<equiv> 1"
abbreviation (input) RPM_INT8_TYPE :: TAG_TYPE where "RPM_INT8_TYPE \<equiv> 2"
abbreviation (input) RPM_INT16_TYPE :: TAG_TYPE where "RPM_INT16_TYPE \<equiv> 3"
abbreviation (input) RPM_INT32_TYPE :: TAG_TYPE where "RPM_INT32_TYPE \<equiv> 4"
abbreviation (input) RPM_INT64_TYPE :: TAG_TYPE where "RPM_INT64_TYPE \<equiv> 5"
abbreviation (input) RPM_STRING_TYPE :: TAG_TYPE where "RPM_STRING_TYPE \<equiv> 6"
abbreviation (input) RPM_BIN_TYPE :: TAG_TYPE where "RPM_BIN_TYPE \<equiv> 7"
abbreviation (input) RPM_STRING_ARRAY_TYPE :: TAG_TYPE where "RPM_STRING_ARRAY_TYPE \<equiv> 8"
abbreviation (input) RPM_I18NSTRING_TYPE :: TAG_TYPE where "RPM_I18NSTRING_TYPE \<equiv> 9"

text \<open>
  Modelled from the spec: the declarations of \<open>entryInfo\<close> and \<open>indexEntry\<close> are not
  among the source files. The spec gives an index entry as
  \<open>{tag: i32, type: u32, offset: i32, count: u32}\<close> with its \<open>data\<close>, a slice
  into the header blob; the uses in \<open>entryValue\<close> fix the field names
  \<open>Info.Tag\<close>, \<open>Info.Type\<close>, \<open>Info.Count\<close> and \<open>Data\<close>.

  A Go slice has a length and a capacity: \<open>Data\<close> holds the \<open>len(Data)\<close> bytes of
  the slice, \<open>Spare\<close> the bytes of its backing array that follow them, so
  \<open>cap(Data) = length Data + length Spare\<close>. Only the slice expression
  \<open>Data[:Count]\<close> can see \<open>Spare\<close>.
\<close>

record entryInfo =
  Tag :: TAG_ID
  Type :: TAG_TYPE
  Offset :: "32 word"
  Count :: "32 word"

record indexEntry =
  Info :: entryInfo
  Data :: "byte list"
  Spare :: "byte list"

record PackageInfo =
  Epoch :: int
  Name :: string
  Version :: string
  Release :: string
  Arch :: string
  SourceRpm :: string
  Size :: int
  License :: string
  Vendor :: string

text \<open>The dynamically typed values that \<open>entryValue\<close> returns as \<open>interface{}\<close>.\<close>

datatype tagValue =
  VByte byte
| VUint16 "16 word"
| VUint32 "32 word"
| VUint64 "64 word"
| VString string
| VStrings "string list"

record PackageInfoEx = PackageInfo +
  TagsMap :: "TAG_ID \<rightharpoonup> tagValue"

section \<open>Errors and panics\<close>

text \<open>
  \<open>io.EOF\<close> and \<open>io.ErrUnexpectedEOF\<close> are what \<open>binary.Read\<close> reports on a short
  reader. An error of the package is \<open>ErrNotSupport\<close>, an \<open>xerrors.New\<close> with its
  message, or an \<open>xerrors.Errorf\<close> with its message wrapping an I/O error. A call
  returns a value, returns an error, or panics (a slice bound out of range).
\<close>

datatype io_error = EOF | ErrUnexpectedEOF

datatype error = ErrNotSupport | New string | Errorf string io_error

datatype 'a outcome = Ok 'a | Err error | Panic

section \<open>The library calls\<close>

text \<open>\<open>string(b)\<close>: the bytes of \<open>b\<close> as a string.\<close>

definition string_of :: "byte list \<Rightarrow> string" where
  "string_of bs = map (\<lambda>b. char_of (unat b)) bs"

text \<open>
  \<open>bytes.TrimRight(s, cutset)\<close> with a cutset of single bytes: the longest prefix of
  \<open>s\<close> that does not end in a byte of the cutset.
\<close>

definition TrimRight :: "byte list \<Rightarrow> byte list \<Rightarrow> byte list" where
  "TrimRight s cutset = rev (dropWhile (\<lambda>b. b \<in> set cutset) (rev s))"

text \<open>
  \<open>binary.Read(reader, binary.BigEndian, &value)\<close> on a \<open>bytes.Reader\<close>, one function
  per type of \<open>value\<close>. The reader is the list of bytes not yet read; a read
  returns the value and the rest. \<open>io.ReadFull\<close> gives \<open>io.EOF\<close> when no byte is
  left and \<open>io.ErrUnexpectedEOF\<close> when some but too few are.
\<close>

fun Read_byte :: "byte list \<Rightarrow> io_error + (byte \<times> byte list)" where
  "Read_byte (b # r) = Inr (b, r)"
| "Read_byte [] = Inl EOF"

fun Read_uint16 :: "byte list \<Rightarrow> io_error + (16 word \<times> byte list)" where
  "Read_uint16 (b0 # b1 # r) = Inr (push_bit 8 (ucast b0) OR ucast b1, r)"
| "Read_uint16 [] = Inl EOF"
| "Read_uint16 _ = Inl ErrUnexpectedEOF"

fun Read_uint32 :: "byte list \<Rightarrow> io_error + (32 word \<times> byte list)" where
  "Read_uint32 (b0 # b1 # b2 # b3 # r) =
     Inr (push_bit 24 (ucast b0) OR push_bit 16 (ucast b1) OR push_bit 8 (ucast b2) OR ucast b3, r)"
| "Read_uint32 [] = Inl EOF"
| "Read_uint32 _ = Inl ErrUnexpectedEOF"

fun Read_uint64 :: "byte list \<Rightarrow> io_error + (64 word \<times> byte list)" where
  "Read_uint64 (b0 # b1 # b2 # b3 # b4 # b5 # b6 # b7 # r) =
     Inr (push_bit 56 (ucast b0) OR push_bit 48 (ucast b1) OR push_bit 40 (ucast b2)
          OR push_bit 32 (ucast b3) OR push_bit 24 (ucast b4) OR push_bit 16 (ucast b5)
          OR push_bit 8 (ucast b6) OR ucast b7, r)"
| "Read_uint64 [] = Inl EOF"
| "Read_uint64 _ = Inl ErrUnexpectedEOF"

text \<open>
  An \<open>int32\<close> is read as the \<open>uint32\<close> of the same bits
  (\<open>*data = int32(order.Uint32(bs))\<close>); it is kept as the 32-bit word, and
  \<open>int(v)\<close> is \<open>sint v\<close>.
\<close>

definition Read_int32 :: "byte list \<Rightarrow> io_error + (32 word \<times> byte list)" where
  "Read_int32 r = Read_uint32 r"

text \<open>\<open>hex.EncodeToString\<close>: two lowercase hexadecimal digits per byte.\<close>

definition hextable :: string where
  "hextable = ''0123456789abcdef''"

definition EncodeToString :: "byte list \<Rightarrow> string" where
  "EncodeToString src =
     concat (map (\<lambda>v. [hextable ! unat (drop_bit 4 v), hextable ! unat (v AND 0x0f)]) src)"

text \<open>
  \<open>bytes.SplitN(s, sep, n)\<close> for a separator that is not empty and \<open>n \<ge> 0\<close>, which
  is what the callers pass (\<open>sep\<close> is one NUL byte, \<open>n\<close> is \<open>int(Count)\<close> of a
  \<open>uint32\<close> on a 64-bit \<open>int\<close>). \<open>Index\<close> is the offset of the first occurrence
  of \<open>sep\<close>. \<open>genSplit\<close> returns nothing for \<open>n = 0\<close>; otherwise its loop cuts
  at the first \<open>n - 1\<close> separators and the rest of \<open>s\<close> is the last piece.
\<close>

fun Index :: "byte list \<Rightarrow> byte list \<Rightarrow> nat option" where
  "Index [] sep = (if sep = [] then Some 0 else None)"
| "Index (b # s) sep =
     (if prefix sep (b # s) then Some 0 else map_option Suc (Index s sep))"

fun genSplit_loop :: "byte list \<Rightarrow> byte list \<Rightarrow> nat \<Rightarrow> byte list list" where
  "genSplit_loop s sep 0 = [s]"
| "genSplit_loop s sep (Suc n) =
     (case Index s sep of
        None \<Rightarrow> [s]
      | Some m \<Rightarrow> take m s # genSplit_loop (drop (m + length sep) s) sep n)"

definition genSplit :: "byte list \<Rightarrow> byte list \<Rightarrow> nat \<Rightarrow> byte list list" where
  "genSplit s sep n =
     (if n = 0 then []
      else genSplit_loop s sep ((if n > length s + 1 then length s + 1 else n) - 1))"

definition SplitN :: "byte list \<Rightarrow> byte list \<Rightarrow> nat \<Rightarrow> byte list list" where
  "SplitN s sep n = genSplit s sep n"

text \<open>
  The slice expression \<open>entry.Data[:n]\<close>: legal up to the capacity of the slice,
  a run-time panic beyond it (\<open>None\<close>).
\<close>

definition slice_to :: "indexEntry \<Rightarrow> nat \<Rightarrow> byte list option" where
  "slice_to entry n =
     (if n \<le> length (Data entry) + length (Spare entry)
      then Some (take n (Data entry @ Spare entry)) else None)"

section \<open>The type-to-value decoder\<close>

text \<open>
  The loop of the two array cases,
  \<open>for i := 0; i < len(values) && i < len(subStrings); i++ { values[i] = string(subStrings[i]) }\<close>.
\<close>

function fillValues :: "nat \<Rightarrow> string list \<Rightarrow> byte list list \<Rightarrow> string list" where
  "fillValues i values subStrings =
     (if i < length values \<and> i < length subStrings
      then fillValues (Suc i) (values[i := string_of (subStrings ! i)]) subStrings
      else values)"
  by pat_completeness auto
termination
  by (relation "measure (\<lambda>(i, values, subStrings). length values - i)") auto

declare fillValues.simps [simp del]

text \<open>
  \<open>entryValue\<close>, case by case in the order of the source. The cases that leave the
  \<open>switch\<close> without a \<open>return\<close> (the NULL type, a BIN entry whose tag lies in
  \<open>[RPMTAG_HEADERIMAGE, RPMTAG_HEADERREGIONS)\<close>, a type that is no case) reach the
  final \<open>return nil, ErrNotSupport\<close>. \<open>make([]string, Count)\<close> is a list of
  \<open>Count\<close> empty strings.
\<close>

definition entryValue :: "indexEntry \<Rightarrow> tagValue outcome" where
  "entryValue entry =
     (let reader = Data entry; ty = Type (Info entry) in
      if ty = RPM_NULL_TYPE then Err ErrNotSupport
      else if ty = RPM_CHAR_TYPE \<or> ty = RPM_INT8_TYPE then
        (case Read_byte reader of
           Inl err \<Rightarrow> Err (Errorf ''failed to read binary byte: %w'' err)
         | Inr (v1, reader1) \<Rightarrow>
             (case Read_byte reader1 of
                Inl err \<Rightarrow> Err (Errorf ''failed to read binary byte: %w'' err)
              | Inr (v2, reader2) \<Rightarrow> Ok (VByte v2)))
      else if ty = RPM_INT16_TYPE then
        (case Read_uint16 reader of
           Inl err \<Rightarrow> Err (Errorf ''failed to read binary byte: %w'' err)
         | Inr (v, reader1) \<Rightarrow> Ok (VUint16 v))
      else if ty = RPM_INT32_TYPE then
        (case Read_uint32 reader of
           Inl err \<Rightarrow> Err (Errorf ''failed to read binary byte: %w'' err)
         | Inr (v, reader1) \<Rightarrow> Ok (VUint32 v))
      else if ty = RPM_INT64_TYPE then
        (case Read_uint64 reader of
           Inl err \<Rightarrow> Err (Errorf ''failed to read binary byte: %w'' err)
         | Inr (v, reader1) \<Rightarrow> Ok (VUint64 v))
      else if ty = RPM_STRING_TYPE then
        Ok (VString (string_of (TrimRight (Data entry) [0])))
      else if ty = RPM_BIN_TYPE then
        (if sint RPMTAG_HEADERIMAGE \<le> sint (Tag (Info entry))
            \<and> sint (Tag (Info entry)) < sint RPMTAG_HEADERREGIONS
         then Err ErrNotSupport
         else (case slice_to entry (unat (Count (Info entry))) of
                 None \<Rightarrow> Panic
               | Some b \<Rightarrow> Ok (VString (EncodeToString b))))
      else if ty = RPM_STRING_ARRAY_TYPE then
        Ok (VStrings (fillValues 0 (replicate (unat (Count (Info entry))) [])
                        (SplitN (Data entry) [0] (unat (Count (Info entry))))))
      else if ty = RPM_I18NSTRING_TYPE then
        Ok (VStrings (fillValues 0 (replicate (unat (Count (Info entry))) [])
                        (SplitN (Data entry) [0] (unat (Count (Info entry))))))
      else Err ErrNotSupport)"

section \<open>The package projector\<close>

text \<open>
  The body of the loop of \<open>getNEVRA\<close>: the \<open>switch\<close> on the tag of one entry, its
  cases in the order of the source. It returns the updated record, or the error
  with which \<open>getNEVRA\<close> returns at once. A tag that is no case leaves the record
  as it is.
\<close>

definition getNEVRA_entry :: "PackageInfo \<Rightarrow> indexEntry \<Rightarrow> PackageInfo outcome" where
  "getNEVRA_entry pkgInfo indexEntry =
     (let tag = Tag (Info indexEntry); ty = Type (Info indexEntry) in
      if tag = RPMTAG_NAME then
        (if ty \<noteq> RPM_STRING_TYPE then Err (New ''invalid tag name'')
         else Ok (pkgInfo\<lparr>Name := string_of (TrimRight (Data indexEntry) [0])\<rparr>))
      else if tag = RPMTAG_EPOCH then
        (if ty \<noteq> RPM_INT32_TYPE then Err (New ''invalid tag epoch'')
         else (case Read_int32 (Data indexEntry) of
                 Inl err \<Rightarrow> Err (Errorf ''failed to read binary (epoch): %w'' err)
               | Inr (epoch, reader) \<Rightarrow> Ok (pkgInfo\<lparr>Epoch := sint epoch\<rparr>)))
      else if tag = RPMTAG_VERSION then
        (if ty \<noteq> RPM_STRING_TYPE then Err (New ''invalid tag version'')
         else Ok (pkgInfo\<lparr>Version := string_of (TrimRight (Data indexEntry) [0])\<rparr>))
      else if tag = RPMTAG_RELEASE then
        (if ty \<noteq> RPM_STRING_TYPE then Err (New ''invalid tag release'')
         else Ok (pkgInfo\<lparr>Release := string_of (TrimRight (Data indexEntry) [0])\<rparr>))
      else if tag = RPMTAG_ARCH then
        (if ty \<noteq> RPM_STRING_TYPE then Err (New ''invalid tag arch'')
         else Ok (pkgInfo\<lparr>Arch := string_of (TrimRight (Data indexEntry) [0])\<rparr>))
      else if tag = RPMTAG_SOURCERPM then
        (if ty \<noteq> RPM_STRING_TYPE then Err (New ''invalid tag sourcerpm'')
         else (let pkgInfo = pkgInfo\<lparr>SourceRpm := string_of (TrimRight (Data indexEntry) [0])\<rparr>
               in Ok (if SourceRpm pkgInfo = ''(none)'' then pkgInfo\<lparr>SourceRpm := []\<rparr> else pkgInfo)))
      else if tag = RPMTAG_LICENSE then
        (if ty \<noteq> RPM_STRING_TYPE then Err (New ''invalid tag license'')
         else (let pkgInfo = pkgInfo\<lparr>License := string_of (TrimRight (Data indexEntry) [0])\<rparr>
               in Ok (if License pkgInfo = ''(none)'' then pkgInfo\<lparr>License := []\<rparr> else pkgInfo)))
      else if tag = RPMTAG_VENDOR then
        (if ty \<noteq> RPM_STRING_TYPE then Err (New ''invalid tag vendor'')
         else (let pkgInfo = pkgInfo\<lparr>Vendor := string_of (TrimRight (Data indexEntry) [0])\<rparr>
               in Ok (if Vendor pkgInfo = ''(none)'' then pkgInfo\<lparr>Vendor := []\<rparr> else pkgInfo)))
      else if tag = RPMTAG_SIZE then
        (if ty \<noteq> RPM_INT32_TYPE then Err (New ''invalid tag size'')
         else (case Read_int32 (Data indexEntry) of
                 Inl err \<Rightarrow> Err (Errorf ''failed to read binary (size): %w'' err)
               | Inr (size', reader) \<Rightarrow> Ok (pkgInfo\<lparr>Size := sint size'\<rparr>)))
      else Ok pkgInfo)"

text \<open>\<open>for _, indexEntry := range indexEntries\<close>, from the record built so far.\<close>

fun getNEVRA_loop :: "PackageInfo \<Rightarrow> indexEntry list \<Rightarrow> PackageInfo outcome" where
  "getNEVRA_loop pkgInfo [] = Ok pkgInfo"
| "getNEVRA_loop pkgInfo (indexEntry # indexEntries) =
     (case getNEVRA_entry pkgInfo indexEntry of
        Ok pkgInfo' \<Rightarrow> getNEVRA_loop pkgInfo' indexEntries
      | Err e \<Rightarrow> Err e
      | Panic \<Rightarrow> Panic)"

text \<open>\<open>&PackageInfo{}\<close>: every field at its zero value.\<close>

definition zeroPackageInfo :: PackageInfo where
  "zeroPackageInfo =
     \<lparr>Epoch = 0, Name = [], Version = [], Release = [], Arch = [], SourceRpm = [],
      Size = 0, License = [], Vendor = []\<rparr>"

definition getNEVRA :: "indexEntry list \<Rightarrow> PackageInfo outcome" where
  "getNEVRA indexEntries = getNEVRA_loop zeroPackageInfo indexEntries"

text \<open>
  The body of the loop of \<open>getPackageWithTags\<close>. Its nine cases are written out
  again in the source and so they are here; the \<open>default\<close> case decodes an entry
  whose tag the mask maps to \<open>true\<close> (a key that is absent reads as \<open>false\<close>) and
  stores the value only when \<open>entryValue\<close> returned no error. A panic of
  \<open>entryValue\<close> is not an error value: it unwinds \<open>getPackageWithTags\<close> as well.
\<close>

definition getPackageWithTags_entry ::
  "PackageInfoEx \<Rightarrow> (TAG_ID \<rightharpoonup> bool) \<Rightarrow> indexEntry \<Rightarrow> PackageInfoEx outcome" where
  "getPackageWithTags_entry pkgInfo tagMask indexEntry =
     (let tag = Tag (Info indexEntry); ty = Type (Info indexEntry) in
      if tag = RPMTAG_NAME then
        (if ty \<noteq> RPM_STRING_TYPE then Err (New ''invalid tag name'')
         else Ok (pkgInfo\<lparr>Name := string_of (TrimRight (Data indexEntry) [0])\<rparr>))
      else if tag = RPMTAG_EPOCH then
        (if ty \<noteq> RPM_INT32_TYPE then Err (New ''invalid tag epoch'')
         else (case Read_int32 (Data indexEntry) of
                 Inl err \<Rightarrow> Err (Errorf ''failed to read binary (epoch): %w'' err)
               | Inr (epoch, reader) \<Rightarrow> Ok (pkgInfo\<lparr>Epoch := sint epoch\<rparr>)))
      else if tag = RPMTAG_VERSION then
        (if ty \<noteq> RPM_STRING_TYPE then Err (New ''invalid tag version'')
         else Ok (pkgInfo\<lparr>Version := string_of (TrimRight (Data indexEntry) [0])\<rparr>))
      else if tag = RPMTAG_RELEASE then
        (if ty \<noteq> RPM_STRING_TYPE then Err (New ''invalid tag release'')
         else Ok (pkgInfo\<lparr>Release := string_of (TrimRight (Data indexEntry) [0])\<rparr>))
      else if tag = RPMTAG_ARCH then
        (if ty \<noteq> RPM_STRING_TYPE then Err (New ''invalid tag arch'')
         else Ok (pkgInfo\<lparr>Arch := string_of (TrimRight (Data indexEntry) [0])\<rparr>))
      else if tag = RPMTAG_SOURCERPM then
        (if ty \<noteq> RPM_STRING_TYPE then Err (New ''invalid tag sourcerpm'')
         else (let pkgInfo = pkgInfo\<lparr>SourceRpm := string_of (TrimRight (Data indexEntry) [0])\<rparr>
               in Ok (if SourceRpm pkgInfo = ''(none)'' then pkgInfo\<lparr>SourceRpm := []\<rparr> else pkgInfo)))
      else if tag = RPMTAG_LICENSE then
        (if ty \<noteq> RPM_STRING_TYPE then Err (New ''invalid tag license'')
         else (let pkgInfo = pkgInfo\<lparr>License := string_of (TrimRight (Data indexEntry) [0])\<rparr>
               in Ok (if License pkgInfo = ''(none)'' then pkgInfo\<lparr>License := []\<rparr> else pkgInfo)))
      else if tag = RPMTAG_VENDOR then
        (if ty \<noteq> RPM_STRING_TYPE then Err (New ''invalid tag vendor'')
         else (let pkgInfo = pkgInfo\<lparr>Vendor := string_of (TrimRight (Data indexEntry) [0])\<rparr>
               in Ok (if Vendor pkgInfo = ''(none)'' then pkgInfo\<lparr>Vendor := []\<rparr> else pkgInfo)))
      else if tag = RPMTAG_SIZE then
        (if ty \<noteq> RPM_INT32_TYPE then Err (New ''invalid tag size'')
         else (case Read_int32 (Data indexEntry) of
                 Inl err \<Rightarrow> Err (Errorf ''failed to read binary (size): %w'' err)
               | Inr (size', reader) \<Rightarrow> Ok (pkgInfo\<lparr>Size := sint size'\<rparr>)))
      else if tagMask tag = Some True then
        (case entryValue indexEntry of
           Ok v \<Rightarrow> Ok (pkgInfo\<lparr>TagsMap := (TagsMap pkgInfo)(tag \<mapsto> v)\<rparr>)
         | Err err \<Rightarrow> Ok pkgInfo
         | Panic \<Rightarrow> Panic)
      else Ok pkgInfo)"

fun getPackageWithTags_loop ::
  "PackageInfoEx \<Rightarrow> (TAG_ID \<rightharpoonup> bool) \<Rightarrow> indexEntry list \<Rightarrow> PackageInfoEx outcome" where
  "getPackageWithTags_loop pkgInfo tagMask [] = Ok pkgInfo"
| "getPackageWithTags_loop pkgInfo tagMask (indexEntry # indexEntries) =
     (case getPackageWithTags_entry pkgInfo tagMask indexEntry of
        Ok pkgInfo' \<Rightarrow> getPackageWithTags_loop pkgInfo' tagMask indexEntries
      | Err e \<Rightarrow> Err e
      | Panic \<Rightarrow> Panic)"

text \<open>\<open>&PackageInfoEx{}\<close> with \<open>TagsMap = make(map[TAG_ID]interface{})\<close>.\<close>

definition zeroPackageInfoEx :: PackageInfoEx where
  "zeroPackageInfoEx =
     \<lparr>Epoch = 0, Name = [], Version = [], Release = [], Arch = [], SourceRpm = [],
      Size = 0, License = [], Vendor = [], TagsMap = Map.empty\<rparr>"

definition getPackageWithTags ::
  "indexEntry list \<Rightarrow> (TAG_ID \<rightharpoonup> bool) \<Rightarrow> PackageInfoEx outcome" where
  "getPackageWithTags indexEntries tagMask =
     getPackageWithTags_loop zeroPackageInfoEx tagMask indexEntries"

section \<open>The notions of the specification\<close>

text \<open>
  These definitions follow the words of the specification, not the source; the
  theorems compare what the source computes with them.

  A big-endian signed 32-bit integer taken from four bytes, as arithmetic: the
  unsigned value \<open>b0 * 2^24 + b1 * 2^16 + b2 * 2^8 + b3\<close>, read in two's complement.
\<close>

definition be_int32 :: "byte \<Rightarrow> byte \<Rightarrow> byte \<Rightarrow> byte \<Rightarrow> int" where
  "be_int32 b0 b1 b2 b3 =
     (let u = uint b0 * 2 ^ 24 + uint b1 * 2 ^ 16 + uint b2 * 2 ^ 8 + uint b3
      in if u < 2 ^ 31 then u else u - 2 ^ 32)"

text \<open>The normalization of the sentinel: the literal \<open>(none)\<close> becomes the empty string.\<close>

definition normalizeNone :: "string \<Rightarrow> string" where
  "normalizeNone s = (if s = ''(none)'' then [] else s)"

text \<open>
  The required type of each of the nine recognized tags, from the table of the
  specification, and what it is for an entry to carry one of these tags with another
  type.
\<close>

definition requiredType :: "TAG_ID \<Rightarrow> TAG_TYPE option" where
  "requiredType tag =
     (if tag \<in> {RPMTAG_NAME, RPMTAG_VERSION, RPMTAG_RELEASE, RPMTAG_ARCH,
                 RPMTAG_SOURCERPM, RPMTAG_LICENSE, RPMTAG_VENDOR}
      then Some RPM_STRING_TYPE
      else if tag \<in> {RPMTAG_EPOCH, RPMTAG_SIZE} then Some RPM_INT32_TYPE
      else None)"

definition typeMismatch :: "indexEntry \<Rightarrow> bool" where
  "typeMismatch e =
     (case requiredType (Tag (Info e)) of
        None \<Rightarrow> False
      | Some ty \<Rightarrow> Type (Info e) \<noteq> ty)"


text \<open>
  Lowercase hexadecimal, as arithmetic: the digit of a value below 16, and the two
  digits of each byte, the high one first.
\<close>

definition hexdigit :: "nat \<Rightarrow> char" where
  "hexdigit n = (if n < 10 then char_of (48 + n) else char_of (87 + n))"

definition lower_hex :: "byte list \<Rightarrow> string" where
  "lower_hex bs = concat (map (\<lambda>b. [hexdigit (unat b div 16), hexdigit (unat b mod 16)]) bs)"

section \<open>Example entries\<close>

text \<open>
  An entry for the examples below: offset 0, and a data slice with no spare capacity
  (\<open>cap(Data) = len(Data)\<close>).
\<close>

definition mkEntry :: "TAG_ID \<Rightarrow> TAG_TYPE \<Rightarrow> 32 word \<Rightarrow> byte list \<Rightarrow> indexEntry" where
  "mkEntry tag ty n bs =
     \<lparr>Info = \<lparr>Tag = tag, Type = ty, Offset = 0, Count = n\<rparr>, Data = bs, Spare = []\<rparr>"

section \<open>Basic projection: totality and the tags it ignores\<close>

lemma getNEVRA_entry_other:
  "Tag (Info e) \<notin> {RPMTAG_NAME, RPMTAG_EPOCH, RPMTAG_VERSION, RPMTAG_RELEASE, RPMTAG_ARCH,
      RPMTAG_SOURCERPM, RPMTAG_LICENSE, RPMTAG_VENDOR, RPMTAG_SIZE} \<Longrightarrow>
   getNEVRA_entry p e = Ok p"
  by (simp add: getNEVRA_entry_def)

lemma getNEVRA_entry_no_panic: "getNEVRA_entry p e \<noteq> Panic"
  by (simp add: getNEVRA_entry_def Let_def split: sum.split)

lemma getNEVRA_loop_no_panic: "getNEVRA_loop p es \<noteq> Panic"
proof (induction es arbitrary: p)
  case Nil
  show ?case by simp
next
  case (Cons e es)
  show ?case
    using Cons.IH getNEVRA_entry_no_panic [of p e]
    by (cases "getNEVRA_entry p e") simp_all
qed

lemma getNEVRA_loop_append:
  "getNEVRA_loop p (xs @ ys) =
     (case getNEVRA_loop p xs of Ok q \<Rightarrow> getNEVRA_loop q ys | Err x \<Rightarrow> Err x | Panic \<Rightarrow> Panic)"
  by (induction xs arbitrary: p) (simp_all split: outcome.split)

text \<open>
  C8: \<open>getNEVRA\<close> is total on every list of index entries and never panics: it
  returns a \<open>PackageInfo\<close> or it returns an error. (The model is a total recursive
  function over the list, so the call always returns; what is proved is that the
  outcome is never the panic.)
\<close>

theorem getNEVRA_total:
  "(\<exists>pkgInfo. getNEVRA indexEntries = Ok pkgInfo) \<or> (\<exists>err. getNEVRA indexEntries = Err err)"
  using getNEVRA_loop_no_panic [of zeroPackageInfo indexEntries]
  by (cases "getNEVRA indexEntries") (simp_all add: getNEVRA_def)

text \<open>
  C9: an entry whose tag is none of the nine recognized tags does not affect the
  basic projection: with the entry inserted at any position of any list,
  \<open>getNEVRA\<close> returns what it returns without it.
\<close>

theorem getNEVRA_ignores_other_tags:
  assumes "Tag (Info e) \<notin> {RPMTAG_NAME, RPMTAG_EPOCH, RPMTAG_VERSION, RPMTAG_RELEASE,
      RPMTAG_ARCH, RPMTAG_SOURCERPM, RPMTAG_LICENSE, RPMTAG_VENDOR, RPMTAG_SIZE}"
  shows "getNEVRA (xs @ e # ys) = getNEVRA (xs @ ys)"
  using getNEVRA_entry_other [OF assms]
  by (simp add: getNEVRA_def getNEVRA_loop_append split: outcome.split)

theorem getNEVRA_ignores_other_tags_witness:
  "Tag (Info (mkEntry RPMTAG_SUMMARY RPM_STRING_TYPE 1 [0x73, 0x68, 0]))
     \<notin> {RPMTAG_NAME, RPMTAG_EPOCH, RPMTAG_VERSION, RPMTAG_RELEASE,
          RPMTAG_ARCH, RPMTAG_SOURCERPM, RPMTAG_LICENSE, RPMTAG_VENDOR, RPMTAG_SIZE}
   \<and> getNEVRA ([mkEntry RPMTAG_NAME RPM_STRING_TYPE 1 [0x62, 0x61, 0x73, 0x68, 0]]
        @ mkEntry RPMTAG_SUMMARY RPM_STRING_TYPE 1 [0x73, 0x68, 0]
        # [mkEntry RPMTAG_EPOCH RPM_INT32_TYPE 1 [0, 0, 0, 2]])
     = Ok (zeroPackageInfo\<lparr>Name := ''bash'', Epoch := 2\<rparr>)"
proof -
  let ?e = "mkEntry RPMTAG_SUMMARY RPM_STRING_TYPE 1 [0x73, 0x68, 0]"
  let ?xs = "[mkEntry RPMTAG_NAME RPM_STRING_TYPE 1 [0x62, 0x61, 0x73, 0x68, 0]]"
  let ?ys = "[mkEntry RPMTAG_EPOCH RPM_INT32_TYPE 1 [0, 0, 0, 2]]"
  have h: "Tag (Info ?e) \<notin> {RPMTAG_NAME, RPMTAG_EPOCH, RPMTAG_VERSION, RPMTAG_RELEASE,
      RPMTAG_ARCH, RPMTAG_SOURCERPM, RPMTAG_LICENSE, RPMTAG_VENDOR, RPMTAG_SIZE}"
    by (simp add: mkEntry_def)
  have v: "getNEVRA (?xs @ ?ys) = Ok (zeroPackageInfo\<lparr>Name := ''bash'', Epoch := 2\<rparr>)"
    by code_simp
  from getNEVRA_ignores_other_tags [OF h, of ?xs ?ys] v
  have "getNEVRA (?xs @ ?e # ?ys) = Ok (zeroPackageInfo\<lparr>Name := ''bash'', Epoch := 2\<rparr>)"
    by (rule trans)
  with h show ?thesis by (rule conjI)
qed

section \<open>Big-endian reads\<close>

lemma be32_int:
  fixes x y z t :: int
  assumes "take_bit 8 x = x" "take_bit 8 y = y" "take_bit 8 z = z" "take_bit 8 t = t"
  shows "push_bit 24 x OR push_bit 16 y OR push_bit 8 z OR t = x * 2^24 + y * 2^16 + z * 2^8 + t"
proof -
  have "concat_bit 8 t (concat_bit 8 z (concat_bit 8 y x))
          = push_bit 24 x OR push_bit 16 y OR push_bit 8 z OR t"
    by (simp add: concat_bit_def assms push_bit_or or.commute or.left_commute)
  moreover have "concat_bit 8 t (concat_bit 8 z (concat_bit 8 y x))
          = x * 2^24 + y * 2^16 + z * 2^8 + t"
    by (simp add: concat_bit_eq assms push_bit_eq_mult algebra_simps)
  ultimately show ?thesis by simp
qed

lemma take_bit_uint_byte: "take_bit 8 (uint b) = uint b" for b :: byte
  by (rule take_bit_int_eq_self) (use uint_lt2p [of b] in simp_all)

lemma uint_byte_less: "uint b < 256" for b :: byte
  using uint_lt2p [of b] by simp

lemma uint_be32:
  fixes b0 b1 b2 b3 :: byte
  shows "uint (push_bit 24 (ucast b0) OR push_bit 16 (ucast b1) OR push_bit 8 (ucast b2) OR ucast b3 :: 32 word)
     = uint b0 * 2^24 + uint b1 * 2^16 + uint b2 * 2^8 + uint b3"
proof -
  have sh24: "take_bit 32 (push_bit 24 (uint b)) = push_bit 24 (uint b)" for b :: byte
    by (rule take_bit_int_eq_self) (use uint_byte_less [of b] in \<open>simp_all add: push_bit_eq_mult\<close>)
  have sh16: "take_bit 32 (push_bit 16 (uint b)) = push_bit 16 (uint b)" for b :: byte
    by (rule take_bit_int_eq_self) (use uint_byte_less [of b] in \<open>simp_all add: push_bit_eq_mult\<close>)
  have sh8: "take_bit 32 (push_bit 8 (uint b)) = push_bit 8 (uint b)" for b :: byte
    by (rule take_bit_int_eq_self) (use uint_byte_less [of b] in \<open>simp_all add: push_bit_eq_mult\<close>)
  have tb32: "take_bit 32 (uint b) = uint b" for b :: byte
    by (rule take_bit_int_eq_self) (use uint_byte_less [of b] in simp_all)
  have uc: "uint (ucast b :: 32 word) = uint b" for b :: byte
    by (simp add: unsigned_ucast_eq tb32)
  have "uint (push_bit 24 (ucast b0) OR push_bit 16 (ucast b1) OR push_bit 8 (ucast b2) OR ucast b3 :: 32 word)
     = push_bit 24 (uint b0) OR push_bit 16 (uint b1) OR push_bit 8 (uint b2) OR uint b3"
    by (simp add: uint_or unsigned_push_bit_eq uc sh24 sh16 sh8)
  then show ?thesis by (simp add: be32_int take_bit_uint_byte)
qed

lemma sint_32_uint: "sint w = (if uint w < 2 ^ 31 then uint w else uint w - 2 ^ 32)" for w :: "32 word"
proof -
  have b: "0 \<le> uint w" "uint w < 4294967296"
    using uint_lt2p [of w] by simp_all
  have "sint w = (uint w + 2147483648) mod 4294967296 - 2147483648"
    by (simp add: sint_uint signed_take_bit_eq_take_bit_shift take_bit_eq_mod)
  moreover have "(uint w + 2147483648) mod 4294967296 = uint w + 2147483648"
    if "uint w < 2147483648"
    using that b by (simp add: mod_pos_pos_trivial)
  moreover have "(uint w + 2147483648) mod 4294967296 = uint w - 2147483648"
    if "\<not> uint w < 2147483648"
  proof -
    have "(uint w - 2147483648 + 4294967296) mod 4294967296 = uint w - 2147483648"
      using that b by (simp only: mod_add_self2) (simp add: mod_pos_pos_trivial)
    then show ?thesis by (simp add: add.commute)
  qed
  ultimately show ?thesis by simp
qed

lemma sint_be32:
  fixes b0 b1 b2 b3 :: byte
  shows "sint (push_bit 24 (ucast b0) OR push_bit 16 (ucast b1) OR push_bit 8 (ucast b2) OR ucast b3 :: 32 word)
     = be_int32 b0 b1 b2 b3"
  by (simp only: sint_32_uint uint_be32 be_int32_def Let_def)


section \<open>Basic projection: the integer fields\<close>

lemma getNEVRA_snoc:
  "getNEVRA (es @ [e]) =
     (case getNEVRA es of Ok p \<Rightarrow> getNEVRA_entry p e | Err x \<Rightarrow> Err x | Panic \<Rightarrow> Panic)"
  by (simp add: getNEVRA_def getNEVRA_loop_append split: outcome.split)

lemma getNEVRA_entry_epoch:
  assumes "Tag (Info e) = RPMTAG_EPOCH" "Type (Info e) = RPM_INT32_TYPE"
    and "Data e = b0 # b1 # b2 # b3 # rest"
  shows "getNEVRA_entry p e = Ok (p\<lparr>Epoch := be_int32 b0 b1 b2 b3\<rparr>)"
  using assms by (simp add: getNEVRA_entry_def Read_int32_def sint_be32)

lemma getNEVRA_entry_size:
  assumes "Tag (Info e) = RPMTAG_SIZE" "Type (Info e) = RPM_INT32_TYPE"
    and "Data e = b0 # b1 # b2 # b3 # rest"
  shows "getNEVRA_entry p e = Ok (p\<lparr>Size := be_int32 b0 b1 b2 b3\<rparr>)"
  using assms by (simp add: getNEVRA_entry_def Read_int32_def sint_be32)

text \<open>
  C7: an entry with tag EPOCH (1003) or SIZE (1009) and declared type INT32 is
  decoded as the big-endian signed 32-bit integer of the first four bytes of its
  data, whatever its declared count: after any list \<open>es\<close>, the projection of
  \<open>es @ [e]\<close> is the projection of \<open>es\<close> with the field set to that integer (and an
  error of \<open>es\<close> is the error of the whole).
\<close>

theorem getNEVRA_int32_big_endian:
  assumes "Type (Info e) = RPM_INT32_TYPE" and "Data e = b0 # b1 # b2 # b3 # rest"
  shows "(Tag (Info e) = RPMTAG_EPOCH \<longrightarrow>
            getNEVRA (es @ [e]) =
              map_outcome (\<lambda>p. p\<lparr>Epoch := be_int32 b0 b1 b2 b3\<rparr>) (getNEVRA es))
       \<and> (Tag (Info e) = RPMTAG_SIZE \<longrightarrow>
            getNEVRA (es @ [e]) =
              map_outcome (\<lambda>p. p\<lparr>Size := be_int32 b0 b1 b2 b3\<rparr>) (getNEVRA es))"
  using assms
  by (cases "getNEVRA es")
     (simp_all add: getNEVRA_snoc getNEVRA_entry_epoch getNEVRA_entry_size)

theorem getNEVRA_int32_big_endian_witness:
  "Type (Info (mkEntry RPMTAG_EPOCH RPM_INT32_TYPE 2 [0xff, 0xff, 0xff, 0xfe, 0, 0, 0, 1]))
      = RPM_INT32_TYPE
   \<and> Data (mkEntry RPMTAG_EPOCH RPM_INT32_TYPE 2 [0xff, 0xff, 0xff, 0xfe, 0, 0, 0, 1])
      = 0xff # 0xff # 0xff # 0xfe # [0, 0, 0, 1]
   \<and> getNEVRA ([mkEntry RPMTAG_NAME RPM_STRING_TYPE 1 [0x62, 0x61, 0x73, 0x68, 0]]
          @ [mkEntry RPMTAG_EPOCH RPM_INT32_TYPE 2 [0xff, 0xff, 0xff, 0xfe, 0, 0, 0, 1]])
      = Ok (zeroPackageInfo\<lparr>Name := ''bash'', Epoch := - 2\<rparr>)"
proof -
  let ?e = "mkEntry RPMTAG_EPOCH RPM_INT32_TYPE 2 [0xff, 0xff, 0xff, 0xfe, 0, 0, 0, 1]"
  let ?es = "[mkEntry RPMTAG_NAME RPM_STRING_TYPE 1 [0x62, 0x61, 0x73, 0x68, 0]]"
  have t: "Type (Info ?e) = RPM_INT32_TYPE"
    by (simp add: mkEntry_def)
  have d: "Data ?e = 0xff # 0xff # 0xff # 0xfe # [0, 0, 0, 1]"
    by (simp add: mkEntry_def)
  have g: "Tag (Info ?e) = RPMTAG_EPOCH"
    by (simp add: mkEntry_def)
  have v: "getNEVRA ?es = Ok (zeroPackageInfo\<lparr>Name := ''bash''\<rparr>)"
    by code_simp
  have b: "be_int32 0xff 0xff 0xff 0xfe = - 2"
    by (simp add: be_int32_def)
  from getNEVRA_int32_big_endian [OF t d, of ?es] g
  have "getNEVRA (?es @ [?e]) =
          map_outcome (\<lambda>p. p\<lparr>Epoch := be_int32 0xff 0xff 0xff 0xfe\<rparr>) (getNEVRA ?es)"
    by blast
  then have "getNEVRA (?es @ [?e]) = Ok (zeroPackageInfo\<lparr>Name := ''bash'', Epoch := - 2\<rparr>)"
    by (simp add: v b zeroPackageInfo_def)
  with t d show ?thesis by blast
qed

section \<open>Basic projection: the sentinel of the string fields\<close>

lemma takeWhile_NUL_replicate:
  "\<exists>n. takeWhile (\<lambda>b. b = 0) xs = replicate n (0::byte)"
proof (induction xs)
  case Nil
  show ?case by simp
next
  case (Cons x xs)
  then obtain n where n: "takeWhile (\<lambda>b. b = 0) xs = replicate n 0" ..
  show ?case
  proof (cases "x = 0")
    case True
    then have "takeWhile (\<lambda>b. b = 0) (x # xs) = replicate (Suc n) 0"
      by (simp add: n)
    then show ?thesis ..
  next
    case False
    then have "takeWhile (\<lambda>b. b = 0) (x # xs) = replicate 0 0"
      by simp
    then show ?thesis ..
  qed
qed

lemma TrimRight_NUL_eq: "TrimRight s [0] = rev (dropWhile (\<lambda>b. b = 0) (rev s))"
  by (simp add: TrimRight_def)

lemma TrimRight_NUL_decomp:
  "\<exists>n. s = TrimRight s [0] @ replicate n 0"
proof -
  let ?tw = "takeWhile (\<lambda>b. b = 0) (rev s)"
  let ?dw = "dropWhile (\<lambda>b. b = 0) (rev s)"
  obtain n where n: "?tw = replicate n 0"
    using takeWhile_NUL_replicate [of "rev s"] ..
  have "TrimRight s [0] @ replicate n 0 = rev ?dw @ rev ?tw"
    by (simp only: TrimRight_NUL_eq n rev_replicate)
  also have "\<dots> = rev (?tw @ ?dw)"
    by (rule rev_append [symmetric])
  also have "\<dots> = rev (rev s)"
    by (simp only: takeWhile_dropWhile_id)
  also have "\<dots> = s"
    by (rule rev_rev_ident)
  finally have "s = TrimRight s [0] @ replicate n 0"
    by (rule sym)
  then show ?thesis ..
qed

lemma TrimRight_NUL_last:
  "TrimRight s [0] = [] \<or> last (TrimRight s [0]) \<noteq> 0"
proof (cases "dropWhile (\<lambda>b. b = 0) (rev s)")
  case Nil
  then show ?thesis by (simp add: TrimRight_NUL_eq)
next
  case (Cons x xs)
  then have "x \<noteq> 0"
    using hd_dropWhile [of "\<lambda>b. b = 0" "rev s"] by simp
  with Cons show ?thesis by (simp add: TrimRight_NUL_eq)
qed

lemma getNEVRA_entry_sourcerpm:
  assumes "Tag (Info e) = RPMTAG_SOURCERPM" "Type (Info e) = RPM_STRING_TYPE"
  shows "getNEVRA_entry p e =
           Ok (p\<lparr>SourceRpm := normalizeNone (string_of (TrimRight (Data e) [0]))\<rparr>)"
  using assms by (simp add: getNEVRA_entry_def normalizeNone_def)

lemma getNEVRA_entry_license:
  assumes "Tag (Info e) = RPMTAG_LICENSE" "Type (Info e) = RPM_STRING_TYPE"
  shows "getNEVRA_entry p e =
           Ok (p\<lparr>License := normalizeNone (string_of (TrimRight (Data e) [0]))\<rparr>)"
  using assms by (simp add: getNEVRA_entry_def normalizeNone_def)

lemma getNEVRA_entry_vendor:
  assumes "Tag (Info e) = RPMTAG_VENDOR" "Type (Info e) = RPM_STRING_TYPE"
  shows "getNEVRA_entry p e =
           Ok (p\<lparr>Vendor := normalizeNone (string_of (TrimRight (Data e) [0]))\<rparr>)"
  using assms by (simp add: getNEVRA_entry_def normalizeNone_def)

text \<open>
  C6: for an entry of type STRING with tag SOURCERPM, LICENSE or VENDOR, the stored
  field is the data of the entry with its trailing NULs trimmed (the data is the
  trimmed bytes followed by NULs only, and the trimmed bytes do not end in a NUL),
  normalized: the literal \<open>(none)\<close> becomes the empty string, every other value,
  the empty string too, is stored as it is, and normalizing twice is normalizing
  once.
\<close>

theorem getNEVRA_none_sentinel:
  assumes "Type (Info e) = RPM_STRING_TYPE"
  shows "(Tag (Info e) = RPMTAG_SOURCERPM \<longrightarrow>
            getNEVRA (es @ [e]) =
              map_outcome (\<lambda>p. p\<lparr>SourceRpm := normalizeNone (string_of (TrimRight (Data e) [0]))\<rparr>)
                (getNEVRA es))
       \<and> (Tag (Info e) = RPMTAG_LICENSE \<longrightarrow>
            getNEVRA (es @ [e]) =
              map_outcome (\<lambda>p. p\<lparr>License := normalizeNone (string_of (TrimRight (Data e) [0]))\<rparr>)
                (getNEVRA es))
       \<and> (Tag (Info e) = RPMTAG_VENDOR \<longrightarrow>
            getNEVRA (es @ [e]) =
              map_outcome (\<lambda>p. p\<lparr>Vendor := normalizeNone (string_of (TrimRight (Data e) [0]))\<rparr>)
                (getNEVRA es))
       \<and> (\<exists>n. Data e = TrimRight (Data e) [0] @ replicate n 0)
       \<and> (TrimRight (Data e) [0] = [] \<or> last (TrimRight (Data e) [0]) \<noteq> 0)
       \<and> normalizeNone ''(none)'' = []
       \<and> normalizeNone [] = []
       \<and> (s \<noteq> ''(none)'' \<longrightarrow> normalizeNone s = s)
       \<and> normalizeNone (normalizeNone s) = normalizeNone s"
proof -
  have "getNEVRA (es @ [e]) =
          map_outcome (\<lambda>p. p\<lparr>SourceRpm := normalizeNone (string_of (TrimRight (Data e) [0]))\<rparr>)
            (getNEVRA es)" if "Tag (Info e) = RPMTAG_SOURCERPM"
    using that assms by (cases "getNEVRA es") (simp_all add: getNEVRA_snoc getNEVRA_entry_sourcerpm)
  moreover have "getNEVRA (es @ [e]) =
          map_outcome (\<lambda>p. p\<lparr>License := normalizeNone (string_of (TrimRight (Data e) [0]))\<rparr>)
            (getNEVRA es)" if "Tag (Info e) = RPMTAG_LICENSE"
    using that assms by (cases "getNEVRA es") (simp_all add: getNEVRA_snoc getNEVRA_entry_license)
  moreover have "getNEVRA (es @ [e]) =
          map_outcome (\<lambda>p. p\<lparr>Vendor := normalizeNone (string_of (TrimRight (Data e) [0]))\<rparr>)
            (getNEVRA es)" if "Tag (Info e) = RPMTAG_VENDOR"
    using that assms by (cases "getNEVRA es") (simp_all add: getNEVRA_snoc getNEVRA_entry_vendor)
  moreover have "normalizeNone (normalizeNone s) = normalizeNone s"
    by (simp add: normalizeNone_def)
  moreover have "normalizeNone ''(none)'' = []" "normalizeNone [] = []"
    "s \<noteq> ''(none)'' \<longrightarrow> normalizeNone s = s"
    by (simp_all add: normalizeNone_def)
  ultimately show ?thesis
    using TrimRight_NUL_decomp [of "Data e"] TrimRight_NUL_last [of "Data e"] by blast
qed

theorem getNEVRA_none_sentinel_witness:
  "Type (Info (mkEntry RPMTAG_VENDOR RPM_STRING_TYPE 1 [0x28, 0x6e, 0x6f, 0x6e, 0x65, 0x29, 0, 0]))
      = RPM_STRING_TYPE
   \<and> Tag (Info (mkEntry RPMTAG_VENDOR RPM_STRING_TYPE 1 [0x28, 0x6e, 0x6f, 0x6e, 0x65, 0x29, 0, 0]))
      = RPMTAG_VENDOR
   \<and> getNEVRA [mkEntry RPMTAG_VENDOR RPM_STRING_TYPE 1 [0x52, 0x48, 0]]
      = Ok (zeroPackageInfo\<lparr>Vendor := ''RH''\<rparr>)
   \<and> getNEVRA ([mkEntry RPMTAG_VENDOR RPM_STRING_TYPE 1 [0x52, 0x48, 0]]
          @ [mkEntry RPMTAG_VENDOR RPM_STRING_TYPE 1 [0x28, 0x6e, 0x6f, 0x6e, 0x65, 0x29, 0, 0]])
      = Ok (zeroPackageInfo\<lparr>Vendor := []\<rparr>)"
proof -
  let ?e = "mkEntry RPMTAG_VENDOR RPM_STRING_TYPE 1 [0x28, 0x6e, 0x6f, 0x6e, 0x65, 0x29, 0, 0]"
  let ?es = "[mkEntry RPMTAG_VENDOR RPM_STRING_TYPE 1 [0x52, 0x48, 0]]"
  have t: "Type (Info ?e) = RPM_STRING_TYPE"
    by (simp add: mkEntry_def)
  have g: "Tag (Info ?e) = RPMTAG_VENDOR"
    by (simp add: mkEntry_def)
  have v: "getNEVRA ?es = Ok (zeroPackageInfo\<lparr>Vendor := ''RH''\<rparr>)"
    by code_simp
  have n: "normalizeNone (string_of (TrimRight (Data ?e) [0])) = []"
    by code_simp
  from getNEVRA_none_sentinel [OF t, of ?es] g
  have "getNEVRA (?es @ [?e]) =
          map_outcome (\<lambda>p. p\<lparr>Vendor := normalizeNone (string_of (TrimRight (Data ?e) [0]))\<rparr>)
            (getNEVRA ?es)"
    by blast
  then have "getNEVRA (?es @ [?e]) = Ok (zeroPackageInfo\<lparr>Vendor := []\<rparr>)"
    by (simp only: v n outcome.map PackageInfo.update_convs zeroPackageInfo_def)
  with t g v show ?thesis by blast
qed

section \<open>The decoder on CHAR and INT8 entries\<close>

lemma entryValue_char:
  assumes "Type (Info e) = RPM_CHAR_TYPE \<or> Type (Info e) = RPM_INT8_TYPE"
  shows "entryValue e =
           (case Data e of
              b0 # b1 # rest \<Rightarrow> Ok (VByte b1)
            | _ \<Rightarrow> Err (Errorf ''failed to read binary byte: %w'' EOF))"
  using assms by (auto simp add: entryValue_def split: list.split)

text \<open>
  C1: the claim is that a CHAR or INT8 entry decodes to its first data byte, and that
  an entry of a single byte decodes. The source reads from the reader twice: an
  entry of a single byte ends in the error of the second read, and an entry of two
  bytes yields the second byte.
\<close>

theorem entryValue_char_reads_twice:
  "entryValue (mkEntry RPMTAG_FILESTATES RPM_CHAR_TYPE 1 [0x41])
     = Err (Errorf ''failed to read binary byte: %w'' EOF)
   \<and> entryValue (mkEntry RPMTAG_FILESTATES RPM_INT8_TYPE 1 [0x41])
     = Err (Errorf ''failed to read binary byte: %w'' EOF)
   \<and> entryValue (mkEntry RPMTAG_FILESTATES RPM_CHAR_TYPE 2 [0x41, 0x42]) = Ok (VByte 0x42)"
  by (simp add: entryValue_def mkEntry_def)

section \<open>The decoder on string arrays\<close>

lemma fillValues_length: "length (fillValues i vs subs) = length vs"
  by (induction i vs subs rule: fillValues.induct) (simp add: fillValues.simps)


lemma entryValue_string_array_length:
  assumes "Type (Info e) = RPM_STRING_ARRAY_TYPE \<or> Type (Info e) = RPM_I18NSTRING_TYPE"
  shows "\<exists>vs. entryValue e = Ok (VStrings vs) \<and> length vs = unat (Count (Info e))"
  using assms by (auto simp add: entryValue_def fillValues_length)

text \<open>
  The data of a well-formed string array is its strings, each followed by a NUL. On
  every such entry of at least one string the decoder returns the strings but for
  the last one, which keeps its NUL.
\<close>

lemma fillValues_full:
  "length vs = length subs \<Longrightarrow> i \<le> length vs \<Longrightarrow>
   fillValues i vs subs = take i vs @ map string_of (drop i subs)"
proof (induction i vs subs rule: fillValues.induct)
  case (1 i vs subs)
  show ?case
  proof (cases "i < length vs")
    case True
    with "1.prems" have s: "i < length subs" by simp
    have "fillValues i vs subs = fillValues (Suc i) (vs[i := string_of (subs ! i)]) subs"
      using True s by (simp add: fillValues.simps [of i vs subs])
    also have "\<dots> = take (Suc i) (vs[i := string_of (subs ! i)]) @ map string_of (drop (Suc i) subs)"
      using True s "1.prems" by (intro "1.IH") simp_all
    also have "take (Suc i) (vs[i := string_of (subs ! i)]) = take i vs @ [string_of (subs ! i)]"
      using True by (simp add: take_Suc_conv_app_nth)
    finally show ?thesis
      using s by (simp add: Cons_nth_drop_Suc [symmetric])
  next
    case False
    then have "fillValues i vs subs = vs"
      by (subst fillValues.simps) simp
    with False "1.prems" show ?thesis
      by simp
  qed
qed

lemma Index_NUL:
  "0 \<notin> set x \<Longrightarrow> Index (x @ 0 # rest) [0] = Some (length x)"
  by (induction x) auto

lemma genSplit_loop_terminated:
  "\<forall>x \<in> set xs. 0 \<notin> set x \<Longrightarrow>
   genSplit_loop (concat (map (\<lambda>s. s @ [0]) (xs @ [y]))) [0] (length xs) = xs @ [y @ [0]]"
proof (induction xs)
  case Nil
  show ?case by simp
next
  case (Cons x xs)
  then have x: "0 \<notin> set x" and xs: "\<forall>x \<in> set xs. 0 \<notin> set x"
    by simp_all
  have "concat (map (\<lambda>s. s @ [0]) ((x # xs) @ [y]))
          = x @ 0 # concat (map (\<lambda>s. s @ [0]) (xs @ [y]))"
    by simp
  then show ?case
    using Index_NUL [OF x] Cons.IH [OF xs] by simp
qed

lemma length_concat_terminated:
  "length strs \<le> length (concat (map (\<lambda>s. s @ [0::byte]) strs))"
  by (induction strs) simp_all

lemma entryValue_string_array_terminated:
  assumes ty: "Type (Info e) = RPM_STRING_ARRAY_TYPE \<or> Type (Info e) = RPM_I18NSTRING_TYPE"
    and n: "unat (Count (Info e)) = length (xs @ [y])"
    and d: "Data e = concat (map (\<lambda>s. s @ [0]) (xs @ [y]))"
    and z: "\<forall>x \<in> set xs. 0 \<notin> set x"
  shows "entryValue e = Ok (VStrings (map string_of xs @ [string_of (y @ [0])]))"
proof -
  let ?n = "unat (Count (Info e))"
  have le: "?n \<le> length (Data e)"
    unfolding n d by (rule length_concat_terminated)
  have "SplitN (Data e) [0] ?n = genSplit_loop (Data e) [0] (length xs)"
    using le n by (simp add: SplitN_def genSplit_def)
  also have "\<dots> = xs @ [y @ [0]]"
    unfolding d by (rule genSplit_loop_terminated [OF z])
  finally have sp: "SplitN (Data e) [0] ?n = xs @ [y @ [0]]" .
  have "fillValues 0 (replicate ?n []) (xs @ [y @ [0]]) = map string_of (xs @ [y @ [0]])"
    using n by (simp add: fillValues_full)
  with sp ty show ?thesis
    by (auto simp add: entryValue_def)
qed

text \<open>
  C2: the claim is that a STRING_ARRAY or I18NSTRING entry of count \<open>n\<close> decodes to
  \<open>n\<close> strings, none of which retains a NUL. The source splits with
  \<open>bytes.SplitN(Data, NUL, n)\<close>, whose last piece is all that follows the first
  \<open>n - 1\<close> separators: the data of two NUL-terminated strings decodes to a second
  string that ends in a NUL, and the data of one to a string that ends in a NUL.
\<close>

theorem entryValue_string_array_keeps_NUL:
  "entryValue (mkEntry RPMTAG_DIRNAMES RPM_STRING_ARRAY_TYPE 2 [0x61, 0, 0x62, 0])
     = Ok (VStrings [''a'', [CHR ''b'', CHR 0x00]])
   \<and> entryValue (mkEntry RPMTAG_SUMMARY RPM_I18NSTRING_TYPE 1 [0x73, 0x68, 0])
     = Ok (VStrings [[CHR ''s'', CHR ''h'', CHR 0x00]])"
  by code_simp

section \<open>The decoder on BIN entries\<close>

lemma hextable_map: "map hexdigit [0..<16] = hextable"
  by code_simp

lemma hextable_nth: "n < 16 \<Longrightarrow> hextable ! n = hexdigit n"
proof -
  assume n: "n < 16"
  have "hextable ! n = map hexdigit [0..<16] ! n"
    by (simp only: hextable_map)
  also have "\<dots> = hexdigit ([0..<16] ! n)"
    using n by (simp only: nth_map length_upt minus_nat.diff_0)
  also have "\<dots> = hexdigit n"
    using n by (simp only: nth_upt add_0)
  finally show ?thesis .
qed

lemma unat_high_nibble: "unat (drop_bit 4 v) = unat v div 16" for v :: byte
  by (simp add: drop_bit_eq_div unat_div)

lemma unat_low_nibble: "unat (v AND 0x0f) = unat v mod 16" for v :: byte
proof -
  have "v AND 0x0f = take_bit 4 v"
    by (simp add: take_bit_eq_mask mask_eq_exp_minus_1)
  then show ?thesis
    by (simp add: take_bit_eq_mod unat_mod)
qed

lemma unat_byte_div16: "unat v div 16 < 16" for v :: byte
proof -
  have "unat v < 2 ^ LENGTH(8)"
    by (rule unsigned_less)
  then show ?thesis by simp
qed

lemma EncodeToString_lower_hex: "EncodeToString src = lower_hex src"
  by (simp add: EncodeToString_def lower_hex_def unat_high_nibble unat_low_nibble
      hextable_nth unat_byte_div16)

lemma entryValue_bin_region:
  assumes "Type (Info e) = RPM_BIN_TYPE"
    and "sint HEADER_IMAGE \<le> sint (Tag (Info e))" "sint (Tag (Info e)) < sint HEADER_REGIONS"
  shows "entryValue e = Err ErrNotSupport"
  using assms by (simp add: entryValue_def)

lemma entryValue_bin_hex:
  assumes "Type (Info e) = RPM_BIN_TYPE"
    and "\<not> (sint HEADER_IMAGE \<le> sint (Tag (Info e)) \<and> sint (Tag (Info e)) < sint HEADER_REGIONS)"
    and "unat (Count (Info e)) \<le> length (Data e)"
  shows "entryValue e = Ok (VString (lower_hex (take (unat (Count (Info e))) (Data e))))"
  using assms by (simp add: entryValue_def slice_to_def EncodeToString_lower_hex)

text \<open>
  C3, as the source has it: a BIN entry whose tag lies outside
  \<open>[HEADER_IMAGE, HEADER_REGIONS)\<close> and whose count is at most the length of its
  data decodes to the lowercase hexadecimal digits of the first \<open>count\<close> bytes; a
  BIN entry whose tag lies in the interval decodes to no value: \<open>entryValue\<close>
  returns \<open>ErrNotSupport\<close>.
\<close>

theorem entryValue_bin:
  assumes "Type (Info e) = RPM_BIN_TYPE"
  shows "(\<not> (sint HEADER_IMAGE \<le> sint (Tag (Info e)) \<and> sint (Tag (Info e)) < sint HEADER_REGIONS)
          \<and> unat (Count (Info e)) \<le> length (Data e)
          \<longrightarrow> entryValue e = Ok (VString (lower_hex (take (unat (Count (Info e))) (Data e)))))
       \<and> (sint HEADER_IMAGE \<le> sint (Tag (Info e)) \<and> sint (Tag (Info e)) < sint HEADER_REGIONS
          \<longrightarrow> entryValue e = Err ErrNotSupport)"
  using assms entryValue_bin_hex [of e] entryValue_bin_region [of e] by blast

theorem entryValue_bin_witness:
  "Type (Info (mkEntry RPMTAG_SOURCEPKGID RPM_BIN_TYPE 2 [0xde, 0xad, 0xbe])) = RPM_BIN_TYPE
   \<and> unat (Count (Info (mkEntry RPMTAG_SOURCEPKGID RPM_BIN_TYPE 2 [0xde, 0xad, 0xbe])))
       \<le> length (Data (mkEntry RPMTAG_SOURCEPKGID RPM_BIN_TYPE 2 [0xde, 0xad, 0xbe]))
   \<and> entryValue (mkEntry RPMTAG_SOURCEPKGID RPM_BIN_TYPE 2 [0xde, 0xad, 0xbe]) = Ok (VString ''dead'')
   \<and> Type (Info (mkEntry HEADER_SIGNATURES RPM_BIN_TYPE 2 [0xde, 0xad])) = RPM_BIN_TYPE
   \<and> entryValue (mkEntry HEADER_SIGNATURES RPM_BIN_TYPE 2 [0xde, 0xad]) = Err ErrNotSupport"
proof -
  let ?e = "mkEntry RPMTAG_SOURCEPKGID RPM_BIN_TYPE 2 [0xde, 0xad, 0xbe]"
  let ?r = "mkEntry HEADER_SIGNATURES RPM_BIN_TYPE 2 [0xde, 0xad]"
  have t: "Type (Info ?e) = RPM_BIN_TYPE" and t': "Type (Info ?r) = RPM_BIN_TYPE"
    by (simp_all add: mkEntry_def)
  have o: "\<not> (sint HEADER_IMAGE \<le> sint (Tag (Info ?e)) \<and> sint (Tag (Info ?e)) < sint HEADER_REGIONS)"
    by (simp add: mkEntry_def)
  have i: "sint HEADER_IMAGE \<le> sint (Tag (Info ?r)) \<and> sint (Tag (Info ?r)) < sint HEADER_REGIONS"
    by (simp add: mkEntry_def)
  have c: "unat (Count (Info ?e)) \<le> length (Data ?e)"
    by (simp add: mkEntry_def)
  have h: "lower_hex (take (unat (Count (Info ?e))) (Data ?e)) = ''dead''"
    by code_simp
  from entryValue_bin [OF t] o c
  have "entryValue ?e = Ok (VString (lower_hex (take (unat (Count (Info ?e))) (Data ?e))))"
    by blast
  then have 1: "entryValue ?e = Ok (VString ''dead'')"
    by (simp only: h)
  from entryValue_bin [OF t'] i have 2: "entryValue ?r = Err ErrNotSupport"
    by blast
  from t c 1 t' 2 show ?thesis by blast
qed

theorem entryValue_bin_counterexample:
  "entryValue (mkEntry HEADER_IMMUTABLE RPM_BIN_TYPE 16
      [0, 0, 0, 0x3f, 0, 0, 0, 7, 0xff, 0xff, 0xff, 0x90, 0, 0, 0, 0x10]) = Err ErrNotSupport
   \<and> entryValue (mkEntry RPMTAG_SOURCEPKGID RPM_BIN_TYPE 3 [0xde, 0xad]) = Panic"
  by (simp add: entryValue_def mkEntry_def slice_to_def)

section \<open>Extended projection against basic projection\<close>

lemma getPackageWithTags_entry_nevra:
  "Tag (Info e) \<in> {RPMTAG_NAME, RPMTAG_EPOCH, RPMTAG_VERSION, RPMTAG_RELEASE, RPMTAG_ARCH,
      RPMTAG_SOURCERPM, RPMTAG_LICENSE, RPMTAG_VENDOR, RPMTAG_SIZE} \<Longrightarrow>
   map_outcome PackageInfo.truncate (getPackageWithTags_entry px tagMask e)
     = getNEVRA_entry (PackageInfo.truncate px) e"
  by (auto simp add: getPackageWithTags_entry_def getNEVRA_entry_def PackageInfo.truncate_def Let_def
      split: sum.split)

lemma getPackageWithTags_entry_other:
  "Tag (Info e) \<notin> {RPMTAG_NAME, RPMTAG_EPOCH, RPMTAG_VERSION, RPMTAG_RELEASE, RPMTAG_ARCH,
      RPMTAG_SOURCERPM, RPMTAG_LICENSE, RPMTAG_VENDOR, RPMTAG_SIZE} \<Longrightarrow>
   getPackageWithTags_entry px tagMask e =
     (if tagMask (Tag (Info e)) = Some True then
        (case entryValue e of
           Ok v \<Rightarrow> Ok (px\<lparr>TagsMap := (TagsMap px)(Tag (Info e) \<mapsto> v)\<rparr>)
         | Err err \<Rightarrow> Ok px
         | Panic \<Rightarrow> Panic)
      else Ok px)"
  by (simp add: getPackageWithTags_entry_def)


lemma getPackageWithTags_entry_refines:
  assumes "getPackageWithTags_entry px tagMask e \<noteq> Panic"
  shows "map_outcome PackageInfo.truncate (getPackageWithTags_entry px tagMask e)
           = getNEVRA_entry (PackageInfo.truncate px) e"
proof (cases "Tag (Info e) \<in> {RPMTAG_NAME, RPMTAG_EPOCH, RPMTAG_VERSION, RPMTAG_RELEASE,
      RPMTAG_ARCH, RPMTAG_SOURCERPM, RPMTAG_LICENSE, RPMTAG_VENDOR, RPMTAG_SIZE}")
  case True
  then show ?thesis by (rule getPackageWithTags_entry_nevra)
next
  case False
  have "map_outcome PackageInfo.truncate (getPackageWithTags_entry px tagMask e)
          = Ok (PackageInfo.truncate px)"
    using assms
    by (auto simp add: getPackageWithTags_entry_other [OF False] PackageInfo.truncate_def
        split: outcome.splits if_splits)
  then show ?thesis
    by (simp add: getNEVRA_entry_other [OF False])
qed

lemma getPackageWithTags_loop_refines:
  "getPackageWithTags_loop px tagMask es \<noteq> Panic \<Longrightarrow>
   map_outcome PackageInfo.truncate (getPackageWithTags_loop px tagMask es)
     = getNEVRA_loop (PackageInfo.truncate px) es"
proof (induction es arbitrary: px)
  case Nil
  show ?case by simp
next
  case (Cons e es)
  show ?case
  proof (cases "getPackageWithTags_entry px tagMask e")
    case (Ok px')
    with Cons.prems have np: "getPackageWithTags_loop px' tagMask es \<noteq> Panic"
      by simp
    have "getNEVRA_entry (PackageInfo.truncate px) e = Ok (PackageInfo.truncate px')"
      using getPackageWithTags_entry_refines [of px tagMask e] Ok by simp
    with Ok Cons.IH [OF np] show ?thesis by simp
  next
    case (Err x)
    have "getNEVRA_entry (PackageInfo.truncate px) e = Err x"
      using getPackageWithTags_entry_refines [of px tagMask e] Err by simp
    with Err show ?thesis by simp
  next
    case Panic
    with Cons.prems show ?thesis by simp
  qed
qed

text \<open>
  C5, as the source has it: on every entry list and every mask on which
  \<open>getPackageWithTags\<close> does not panic, it succeeds exactly when \<open>getNEVRA\<close>
  succeeds, with the same error when both fail, and on success the embedded
  \<open>PackageInfo\<close> of its result (\<open>PackageInfo.truncate\<close>: the nine fields without
  the tags map) is the \<open>PackageInfo\<close> that \<open>getNEVRA\<close> returns.
\<close>

theorem getPackageWithTags_refines_getNEVRA:
  assumes "getPackageWithTags es tagMask \<noteq> Panic"
  shows "map_outcome PackageInfo.truncate (getPackageWithTags es tagMask) = getNEVRA es"
proof -
  have "PackageInfo.truncate zeroPackageInfoEx = zeroPackageInfo"
    by (simp add: zeroPackageInfoEx_def zeroPackageInfo_def PackageInfo.truncate_def)
  with getPackageWithTags_loop_refines [of zeroPackageInfoEx tagMask es] assms
  show ?thesis by (simp add: getPackageWithTags_def getNEVRA_def)
qed

theorem getPackageWithTags_refines_getNEVRA_witness:
  "getPackageWithTags
      [mkEntry RPMTAG_NAME RPM_STRING_TYPE 1 [0x62, 0x61, 0x73, 0x68, 0],
       mkEntry RPMTAG_SUMMARY RPM_STRING_TYPE 1 [0x73, 0x68, 0]] [RPMTAG_SUMMARY \<mapsto> True] \<noteq> Panic
   \<and> map_outcome PackageInfo.truncate
        (getPackageWithTags
           [mkEntry RPMTAG_NAME RPM_STRING_TYPE 1 [0x62, 0x61, 0x73, 0x68, 0],
            mkEntry RPMTAG_SUMMARY RPM_STRING_TYPE 1 [0x73, 0x68, 0]] [RPMTAG_SUMMARY \<mapsto> True])
      = Ok (zeroPackageInfo\<lparr>Name := ''bash''\<rparr>)"
proof -
  let ?es = "[mkEntry RPMTAG_NAME RPM_STRING_TYPE 1 [0x62, 0x61, 0x73, 0x68, 0],
              mkEntry RPMTAG_SUMMARY RPM_STRING_TYPE 1 [0x73, 0x68, 0]]"
  let ?m = "[RPMTAG_SUMMARY \<mapsto> True] :: TAG_ID \<rightharpoonup> bool"
  have np: "getPackageWithTags ?es ?m \<noteq> Panic"
    by (simp add: getPackageWithTags_def getPackageWithTags_entry_def entryValue_def mkEntry_def)
  have v: "getNEVRA ?es = Ok (zeroPackageInfo\<lparr>Name := ''bash''\<rparr>)"
    by code_simp
  from getPackageWithTags_refines_getNEVRA [OF np] v
  have "map_outcome PackageInfo.truncate (getPackageWithTags ?es ?m)
          = Ok (zeroPackageInfo\<lparr>Name := ''bash''\<rparr>)"
    by (rule trans)
  with np show ?thesis by (rule conjI)
qed

theorem getPackageWithTags_refines_getNEVRA_counterexample:
  "getNEVRA [mkEntry RPMTAG_SOURCEPKGID RPM_BIN_TYPE 3 [0xde, 0xad]] = Ok zeroPackageInfo
   \<and> getPackageWithTags [mkEntry RPMTAG_SOURCEPKGID RPM_BIN_TYPE 3 [0xde, 0xad]] [RPMTAG_SOURCEPKGID \<mapsto> True] = Panic"
  by (simp add: getNEVRA_def getNEVRA_entry_def getPackageWithTags_def
      getPackageWithTags_entry_def entryValue_def slice_to_def mkEntry_def)

section \<open>Extended projection: errors that are dropped and errors that are returned\<close>

lemma getPackageWithTags_loop_append:
  "getPackageWithTags_loop px tagMask (xs @ ys) =
     (case getPackageWithTags_loop px tagMask xs of
        Ok qx \<Rightarrow> getPackageWithTags_loop qx tagMask ys
      | Err x \<Rightarrow> Err x
      | Panic \<Rightarrow> Panic)"
  by (induction xs arbitrary: px) (simp_all split: outcome.split)

lemma getPackageWithTags_skip:
  assumes "Tag (Info e) \<notin> {RPMTAG_NAME, RPMTAG_EPOCH, RPMTAG_VERSION, RPMTAG_RELEASE,
      RPMTAG_ARCH, RPMTAG_SOURCERPM, RPMTAG_LICENSE, RPMTAG_VENDOR, RPMTAG_SIZE}"
    and "entryValue e = Err err"
  shows "getPackageWithTags (xs @ e # ys) tagMask = getPackageWithTags (xs @ ys) tagMask"
proof -
  have "getPackageWithTags_entry px tagMask e = Ok px" for px
    using assms(2) by (simp add: getPackageWithTags_entry_other [OF assms(1)])
  then show ?thesis
    by (simp add: getPackageWithTags_def getPackageWithTags_loop_append split: outcome.split)
qed

lemma getPackageWithTags_entry_mismatch:
  assumes "typeMismatch e"
  shows "\<exists>err. getPackageWithTags_entry px tagMask e = Err err"
  using assms
  by (auto simp add: typeMismatch_def requiredType_def getPackageWithTags_entry_def
      split: if_splits)

lemma getPackageWithTags_loop_mismatch:
  "\<exists>x \<in> set es. typeMismatch x \<Longrightarrow>
   getPackageWithTags_loop px tagMask es \<noteq> Panic \<Longrightarrow>
   \<exists>err. getPackageWithTags_loop px tagMask es = Err err"
proof (induction es arbitrary: px)
  case Nil
  then show ?case by simp
next
  case (Cons e es)
  show ?case
  proof (cases "getPackageWithTags_entry px tagMask e")
    case (Ok px')
    then have "\<not> typeMismatch e"
      using getPackageWithTags_entry_mismatch [of e px tagMask] by auto
    with Cons.prems(1) have "\<exists>x \<in> set es. typeMismatch x" by simp
    moreover from Cons.prems(2) Ok have "getPackageWithTags_loop px' tagMask es \<noteq> Panic"
      by simp
    ultimately show ?thesis using Cons.IH Ok by simp
  next
    case (Err x)
    then show ?thesis by simp
  next
    case Panic
    with Cons.prems(2) show ?thesis by simp
  qed
qed

lemma getPackageWithTags_entry_TagsMap:
  assumes "getPackageWithTags_entry px tagMask e = Ok qx" and "TagsMap qx t = Some v"
  shows "TagsMap px t = Some v \<or> (Tag (Info e) = t \<and> entryValue e = Ok v)"
proof (cases "Tag (Info e) \<in> {RPMTAG_NAME, RPMTAG_EPOCH, RPMTAG_VERSION, RPMTAG_RELEASE,
      RPMTAG_ARCH, RPMTAG_SOURCERPM, RPMTAG_LICENSE, RPMTAG_VENDOR, RPMTAG_SIZE}")
  case True
  with assms(1) have "TagsMap qx = TagsMap px"
    by (auto simp add: getPackageWithTags_entry_def Let_def split: if_splits sum.splits)
  with assms(2) show ?thesis by simp
next
  case False
  with assms show ?thesis
    by (auto simp add: getPackageWithTags_entry_other split: if_splits outcome.splits)
qed

lemma getPackageWithTags_loop_TagsMap:
  "getPackageWithTags_loop px tagMask es = Ok qx \<Longrightarrow> TagsMap qx t = Some v \<Longrightarrow>
   TagsMap px t = Some v \<or> (\<exists>e \<in> set es. Tag (Info e) = t \<and> entryValue e = Ok v)"
proof (induction es arbitrary: px)
  case Nil
  then show ?case by simp
next
  case (Cons e es)
  from Cons.prems(1) obtain px' where
    e: "getPackageWithTags_entry px tagMask e = Ok px'" and
    l: "getPackageWithTags_loop px' tagMask es = Ok qx"
    by (auto split: outcome.splits)
  from Cons.IH [OF l Cons.prems(2)]
  show ?case
  proof
    assume "TagsMap px' t = Some v"
    with getPackageWithTags_entry_TagsMap [OF e] show ?thesis by auto
  next
    assume "\<exists>e \<in> set es. Tag (Info e) = t \<and> entryValue e = Ok v"
    then show ?thesis by auto
  qed
qed

lemma getPackageWithTags_omits:
  assumes "getPackageWithTags es tagMask = Ok px"
    and "\<forall>x \<in> set es. Tag (Info x) = t \<longrightarrow> (\<exists>err. entryValue x = Err err)"
  shows "TagsMap px t = None"
proof (rule ccontr)
  assume "TagsMap px t \<noteq> None"
  then obtain v where v: "TagsMap px t = Some v" by auto
  from assms(1) have "getPackageWithTags_loop zeroPackageInfoEx tagMask es = Ok px"
    by (simp add: getPackageWithTags_def)
  from getPackageWithTags_loop_TagsMap [OF this v]
  have "\<exists>e \<in> set es. Tag (Info e) = t \<and> entryValue e = Ok v"
    by (simp add: zeroPackageInfoEx_def)
  with assms(2) show False by auto
qed

text \<open>
  C4, as the source has it: when \<open>entryValue\<close> returns an error on a requested
  entry whose tag is none of the nine, the entry is skipped: the projection of a list
  with the entry is the projection of the list without it, so it does not fail the
  projection; and a tag whose entries all end in an error of \<open>entryValue\<close> is not a
  key of the tags map of a projection that succeeds. When an entry carries one of the
  nine tags with a type that is not the required one, the projection does not
  succeed: it returns an error, unless it has panicked before reaching the entry.
\<close>

theorem getPackageWithTags_error_policy:
  "(Tag (Info e) \<notin> {RPMTAG_NAME, RPMTAG_EPOCH, RPMTAG_VERSION, RPMTAG_RELEASE,
      RPMTAG_ARCH, RPMTAG_SOURCERPM, RPMTAG_LICENSE, RPMTAG_VENDOR, RPMTAG_SIZE}
      \<and> tagMask (Tag (Info e)) = Some True \<and> entryValue e = Err err
      \<longrightarrow> getPackageWithTags (xs @ e # ys) tagMask = getPackageWithTags (xs @ ys) tagMask)
   \<and> (getPackageWithTags es tagMask = Ok px
      \<and> (\<forall>x \<in> set es. Tag (Info x) = t \<longrightarrow> (\<exists>err'. entryValue x = Err err'))
      \<longrightarrow> TagsMap px t = None)
   \<and> ((\<exists>x \<in> set es. typeMismatch x) \<and> getPackageWithTags es tagMask \<noteq> Panic
      \<longrightarrow> (\<exists>err'. getPackageWithTags es tagMask = Err err'))"
proof -
  have "getPackageWithTags es tagMask \<noteq> Panic \<Longrightarrow> \<exists>x \<in> set es. typeMismatch x \<Longrightarrow>
        \<exists>err'. getPackageWithTags es tagMask = Err err'"
    unfolding getPackageWithTags_def by (rule getPackageWithTags_loop_mismatch)
  then show ?thesis
    using getPackageWithTags_skip [of e err xs ys tagMask]
      getPackageWithTags_omits [of es tagMask px t]
    by blast
qed

theorem getPackageWithTags_error_policy_witness:
  "Tag (Info (mkEntry HEADER_IMMUTABLE RPM_BIN_TYPE 2 [0xde, 0xad])) \<notin> {RPMTAG_NAME, RPMTAG_EPOCH, RPMTAG_VERSION, RPMTAG_RELEASE,
      RPMTAG_ARCH, RPMTAG_SOURCERPM, RPMTAG_LICENSE, RPMTAG_VENDOR, RPMTAG_SIZE}
   \<and> [HEADER_IMMUTABLE \<mapsto> True] (Tag (Info (mkEntry HEADER_IMMUTABLE RPM_BIN_TYPE 2 [0xde, 0xad])))
       = Some True
   \<and> entryValue (mkEntry HEADER_IMMUTABLE RPM_BIN_TYPE 2 [0xde, 0xad]) = Err ErrNotSupport
   \<and> getPackageWithTags
        ([] @ mkEntry HEADER_IMMUTABLE RPM_BIN_TYPE 2 [0xde, 0xad]
            # [mkEntry RPMTAG_NAME RPM_STRING_TYPE 1 [0x62, 0x61, 0x73, 0x68, 0]])
        [HEADER_IMMUTABLE \<mapsto> True]
      = getPackageWithTags
          ([] @ [mkEntry RPMTAG_NAME RPM_STRING_TYPE 1 [0x62, 0x61, 0x73, 0x68, 0]])
          [HEADER_IMMUTABLE \<mapsto> True]
   \<and> getPackageWithTags
        [mkEntry HEADER_IMMUTABLE RPM_BIN_TYPE 2 [0xde, 0xad],
         mkEntry RPMTAG_NAME RPM_STRING_TYPE 1 [0x62, 0x61, 0x73, 0x68, 0]]
        [HEADER_IMMUTABLE \<mapsto> True]
      = Ok (zeroPackageInfoEx\<lparr>Name := ''bash''\<rparr>)
   \<and> TagsMap (zeroPackageInfoEx\<lparr>Name := ''bash''\<rparr>) HEADER_IMMUTABLE = None
   \<and> (\<exists>x \<in> set [mkEntry RPMTAG_NAME RPM_INT32_TYPE 1 [0, 0, 0, 1]]. typeMismatch x)
   \<and> getPackageWithTags [mkEntry RPMTAG_NAME RPM_INT32_TYPE 1 [0, 0, 0, 1]]
        [HEADER_IMMUTABLE \<mapsto> True] \<noteq> Panic
   \<and> (\<exists>err'. getPackageWithTags [mkEntry RPMTAG_NAME RPM_INT32_TYPE 1 [0, 0, 0, 1]]
        [HEADER_IMMUTABLE \<mapsto> True] = Err err')"
proof -
  let ?e = "mkEntry HEADER_IMMUTABLE RPM_BIN_TYPE 2 [0xde, 0xad]"
  let ?n = "mkEntry RPMTAG_NAME RPM_STRING_TYPE 1 [0x62, 0x61, 0x73, 0x68, 0]"
  let ?es = "[mkEntry RPMTAG_NAME RPM_INT32_TYPE 1 [0, 0, 0, 1]]"
  let ?m = "[HEADER_IMMUTABLE \<mapsto> True] :: TAG_ID \<rightharpoonup> bool"
  let ?px = "zeroPackageInfoEx\<lparr>Name := ''bash''\<rparr>"
  have a: "Tag (Info ?e) \<notin> {RPMTAG_NAME, RPMTAG_EPOCH, RPMTAG_VERSION, RPMTAG_RELEASE,
      RPMTAG_ARCH, RPMTAG_SOURCERPM, RPMTAG_LICENSE, RPMTAG_VENDOR, RPMTAG_SIZE}"
    by (simp add: mkEntry_def)
  have b: "?m (Tag (Info ?e)) = Some True"
    by (simp add: mkEntry_def)
  have c: "entryValue ?e = Err ErrNotSupport"
    by (simp add: entryValue_def mkEntry_def)
  have d: "\<exists>x \<in> set ?es. typeMismatch x"
    by (simp add: typeMismatch_def requiredType_def mkEntry_def)
  have f: "getPackageWithTags ?es ?m \<noteq> Panic"
    by (simp add: getPackageWithTags_def getPackageWithTags_entry_def mkEntry_def)
  have nm: "string_of (TrimRight [0x62, 0x61, 0x73, 0x68, 0] [0]) = ''bash''"
    by code_simp
  have g: "getPackageWithTags [?e, ?n] ?m = Ok ?px"
    by (simp add: getPackageWithTags_def getPackageWithTags_entry_def entryValue_def
        mkEntry_def nm)
  have h: "\<forall>x \<in> set [?e, ?n]. Tag (Info x) = HEADER_IMMUTABLE \<longrightarrow> (\<exists>err'. entryValue x = Err err')"
    using c by (simp add: mkEntry_def)
  from getPackageWithTags_error_policy
         [of ?e ?m ErrNotSupport "[]" "[?n]" "[?e, ?n]" ?px HEADER_IMMUTABLE] a b c g h
  have 1: "getPackageWithTags ([] @ ?e # [?n]) ?m = getPackageWithTags ([] @ [?n]) ?m"
    and 2: "TagsMap ?px HEADER_IMMUTABLE = None"
    by blast+
  from getPackageWithTags_error_policy [of _ ?m _ _ _ ?es] d f
  have 3: "\<exists>err'. getPackageWithTags ?es ?m = Err err'"
    by blast
  from a b c 1 g 2 d f 3 show ?thesis by blast
qed

theorem getPackageWithTags_error_policy_counterexample:
  "typeMismatch (mkEntry RPMTAG_NAME RPM_INT32_TYPE 1 [0, 0, 0, 1])
   \<and> getPackageWithTags
        [mkEntry RPMTAG_SOURCEPKGID RPM_BIN_TYPE 3 [0xde, 0xad],
         mkEntry RPMTAG_NAME RPM_INT32_TYPE 1 [0, 0, 0, 1]] [RPMTAG_SOURCEPKGID \<mapsto> True] = Panic"
  by (simp add: typeMismatch_def requiredType_def getPackageWithTags_def
      getPackageWithTags_entry_def entryValue_def slice_to_def mkEntry_def)

section \<open>Extended projection: when it panics\<close>









end
